theory Spec2Isabelle
  imports Main
begin

section \<open>The command tokenizer\<close>

text \<open>
  \<^verbatim>\<open>InteractiveSession.parseCommand\<close> of \<^verbatim>\<open>job-files/start.js\<close>. A JavaScript string is
  modelled as a list of characters; the two quote characters and the blank are named.
\<close>

definition dquote :: char where
  "dquote = CHR 0x22"

definition squote :: char where
  "squote = CHR 0x27"

definition blank :: char where
  "blank = CHR 0x20"

text \<open>
  One turn of the \<^verbatim>\<open>for\<close> loop. The loop state is the array \<^verbatim>\<open>chunks\<close> and the variable
  \<^verbatim>\<open>quoteChar\<close> (\<open>None\<close> for \<^verbatim>\<open>null\<close>). The last branch overwrites the last element of
  \<^verbatim>\<open>chunks\<close> in place.
\<close>

definition parse_step :: "string list \<times> char option \<Rightarrow> char \<Rightarrow> string list \<times> char option" where
  "parse_step st letter =
     (let chunks = fst st;
          quoteChar = snd st;
          isQuoteChar = (letter = dquote \<or> letter = squote);
          isInQuotes = (quoteChar \<noteq> None)
      in if \<not> isInQuotes \<and> isQuoteChar then (chunks, Some letter)
         else if quoteChar = Some letter then (chunks, None)
         else (let isNewChunk = (letter = blank \<and> \<not> isInQuotes)
               in if isNewChunk then (chunks @ [[]], quoteChar)
                  else (chunks[length chunks - 1 := last chunks @ [letter]], quoteChar)))"

text \<open>The loop over the characters of \<^verbatim>\<open>cmd\<close>, from the first to the last.\<close>

fun parse_loop :: "string \<Rightarrow> string list \<times> char option \<Rightarrow> string list \<times> char option" where
  "parse_loop [] st = st"
| "parse_loop (letter # rest) st = parse_loop rest (parse_step st letter)"

definition parseCommand :: "string \<Rightarrow> string list" where
  "parseCommand cmd = fst (parse_loop cmd ([[]], None))"

text \<open>The value of \<^verbatim>\<open>quoteChar\<close> when the loop has read \<open>cmd\<close>.\<close>

definition openQuote :: "string \<Rightarrow> char option" where
  "openQuote cmd = snd (parse_loop cmd ([[]], None))"

subsection \<open>The tokenizer as the specification words it\<close>

text \<open>
  Section 4.1 of the specification describes a machine with the state "inside quotes, opened
  by \<open>q\<close>" or "outside quotes". Outside, a quote character opens a quoted span and is
  consumed, a blank ends the current token, any other character joins the current token.
  Inside, only the opening quote character closes the span (and is consumed); every other
  character, the other quote character and the blank included, joins the current token. The
  end of the input ends the current token.
\<close>

fun extend_first :: "char \<Rightarrow> string list \<Rightarrow> string list" where
  "extend_first c [] = [[c]]"
| "extend_first c (t # ts) = (c # t) # ts"

fun tokenize :: "char option \<Rightarrow> string \<Rightarrow> string list" where
  "tokenize q [] = [[]]"
| "tokenize None (c # cs) =
     (if c = dquote \<or> c = squote then tokenize (Some c) cs
      else if c = blank then [] # tokenize None cs
      else extend_first c (tokenize None cs))"
| "tokenize (Some q) (c # cs) =
     (if c = q then tokenize None cs
      else extend_first c (tokenize (Some q) cs))"

section \<open>Library functions of the JavaScript run time\<close>

text \<open>
  The agent calls \<^verbatim>\<open>String.prototype.split\<close>, \<^verbatim>\<open>Array.prototype.join\<close>,
  \<^verbatim>\<open>String.prototype.startsWith\<close> and the POSIX flavour of Node's \<^verbatim>\<open>path\<close> module
  (\<^verbatim>\<open>path.sep\<close> is the slash). They are modelled here as Node documents and implements
  them.
\<close>

definition slash :: char where
  "slash = CHR 0x2F"

fun split_on :: "char \<Rightarrow> string \<Rightarrow> string list" where
  "split_on sep [] = [[]]"
| "split_on sep (c # cs) =
     (if c = sep then [] # split_on sep cs else extend_first c (split_on sep cs))"

fun join_sep :: "string \<Rightarrow> string list \<Rightarrow> string" where
  "join_sep sep [] = []"
| "join_sep sep [x] = x"
| "join_sep sep (x # y # ys) = x @ sep @ join_sep sep (y # ys)"

definition startsWith :: "string \<Rightarrow> string \<Rightarrow> bool" where
  "startsWith s pre = (take (length pre) s = pre)"

text \<open>
  Node's \<^verbatim>\<open>normalizeString\<close>, segment by segment: empty segments and \<^verbatim>\<open>.\<close> vanish, \<^verbatim>\<open>..\<close>
  removes the segment before it; where there is none (or it is \<^verbatim>\<open>..\<close> itself) the \<^verbatim>\<open>..\<close> is
  kept when \<open>allowAboveRoot\<close> holds and dropped otherwise.
\<close>

fun normalizeSegments :: "bool \<Rightarrow> string list \<Rightarrow> string list \<Rightarrow> string list" where
  "normalizeSegments allowAboveRoot res [] = res"
| "normalizeSegments allowAboveRoot res (s # ss) =
     (if s = [] \<or> s = ''.'' then normalizeSegments allowAboveRoot res ss
      else if s = ''..'' then
        (if res \<noteq> [] \<and> last res \<noteq> ''..''
           then normalizeSegments allowAboveRoot (butlast res) ss
         else if allowAboveRoot then normalizeSegments allowAboveRoot (res @ [''..'']) ss
         else normalizeSegments allowAboveRoot res ss)
      else normalizeSegments allowAboveRoot (res @ [s]) ss)"

definition normalizeString :: "string \<Rightarrow> bool \<Rightarrow> string" where
  "normalizeString p allowAboveRoot =
     join_sep [slash] (normalizeSegments allowAboveRoot [] (split_on slash p))"

definition isAbsolute :: "string \<Rightarrow> bool" where
  "isAbsolute p = (case p of [] \<Rightarrow> False | c # _ \<Rightarrow> c = slash)"

definition path_normalize :: "string \<Rightarrow> string" where
  "path_normalize p =
     (if p = [] then ''.''
      else (let trailingSeparator = (last p = slash);
                q = normalizeString p (\<not> isAbsolute p)
            in if q = [] then (if isAbsolute p then [slash]
                               else if trailingSeparator then ''./'' else ''.'')
               else (let q' = (if trailingSeparator then q @ [slash] else q)
                     in if isAbsolute p then slash # q' else q')))"

definition path_join :: "string list \<Rightarrow> string" where
  "path_join parts =
     (let present = filter (\<lambda>a. a \<noteq> []) parts
      in if present = [] then ''.'' else path_normalize (join_sep [slash] present))"

text \<open>
  \<^verbatim>\<open>path.resolve\<close> of one argument, in a process whose working directory is \<open>wd\<close>.
\<close>

definition path_resolve :: "string \<Rightarrow> string \<Rightarrow> string" where
  "path_resolve wd p =
     (let resolvedPath = (if p = [] then wd @ [slash]
                          else if isAbsolute p then p @ [slash]
                          else wd @ [slash] @ p @ [slash]);
          resolvedAbsolute = isAbsolute resolvedPath;
          res = normalizeString resolvedPath (\<not> resolvedAbsolute)
      in if resolvedAbsolute then slash # res
         else if res \<noteq> [] then res else ''.'')"

fun drop_common :: "string list \<Rightarrow> string list \<Rightarrow> string list \<times> string list" where
  "drop_common (x # xs) (y # ys) = (if x = y then drop_common xs ys else (x # xs, y # ys))"
| "drop_common xs ys = (xs, ys)"

definition segments :: "string \<Rightarrow> string list" where
  "segments p = filter (\<lambda>s. s \<noteq> []) (split_on slash p)"

text \<open>
  \<^verbatim>\<open>path.relative\<close>: both paths are resolved, the directories they share are left out, one
  \<^verbatim>\<open>..\<close> climbs out of each remaining directory of \<open>from\<close>, and the rest of \<open>to\<close> follows.
\<close>

definition path_relative :: "string \<Rightarrow> string \<Rightarrow> string \<Rightarrow> string" where
  "path_relative wd from to =
     (if from = to then []
      else (let from' = path_resolve wd from; to' = path_resolve wd to
            in if from' = to' then []
               else (case drop_common (segments from') (segments to') of
                       (f, t) \<Rightarrow> join_sep [slash] (map (\<lambda>_. ''..'') f @ t))))"

text \<open>
  \<^verbatim>\<open>path.dirname\<close>: the scan runs from the last index down to index 1 and stops at the first
  slash that follows (leftwards) a character that is no slash.
\<close>

fun dirname_scan :: "string \<Rightarrow> nat \<Rightarrow> bool \<Rightarrow> nat option" where
  "dirname_scan p 0 matchedSlash = None"
| "dirname_scan p (Suc j) matchedSlash =
     (if p ! Suc j = slash
      then (if \<not> matchedSlash then Some (Suc j) else dirname_scan p j matchedSlash)
      else dirname_scan p j False)"

definition path_dirname :: "string \<Rightarrow> string" where
  "path_dirname p =
     (if p = [] then ''.''
      else (case dirname_scan p (length p - 1) True of
              None \<Rightarrow> (if isAbsolute p then [slash] else ''.'')
            | Some e \<Rightarrow> (if isAbsolute p \<and> e = 1 then ''//'' else take e p)))"

text \<open>
  Two notions for the proofs about paths. A segment is clean when it can stand in a resolved
  path: it is not empty, not \<^verbatim>\<open>.\<close>, not \<^verbatim>\<open>..\<close>, and holds no slash. \<open>resolved\<close> names the
  segments that \<^verbatim>\<open>path.resolve\<close> joins when the working directory is absolute.
\<close>

definition clean :: "string \<Rightarrow> bool" where
  "clean s = (s \<noteq> [] \<and> s \<noteq> ''.'' \<and> s \<noteq> ''..'' \<and> slash \<notin> set s)"

definition resolved :: "string \<Rightarrow> string \<Rightarrow> string list" where
  "resolved wd p =
     normalizeSegments False []
       (split_on slash (if p = [] then wd @ [slash]
                        else if isAbsolute p then p @ [slash]
                        else wd @ [slash] @ p @ [slash]))"

section \<open>Data of the agent\<close>

text \<open>
  A JavaScript error is either a system error with a \<^verbatim>\<open>code\<close> (such as \<^verbatim>\<open>EEXIST\<close>) or an
  \<^verbatim>\<open>Error\<close> with a message.
\<close>

datatype error = SysError string | Error string

text \<open>
  The values that travel in a \<^verbatim>\<open>COMPLETE\<close> message: a number, \<^verbatim>\<open>null\<close> (the exit code of a
  process that a signal ended), \<^verbatim>\<open>undefined\<close> (no result) and any other, opaque, value.
\<close>

datatype jsval = Undefined | Null | Num int | Data string

text \<open>
  An incoming message, decoded. \<^verbatim>\<open>msg.type\<close> and \<^verbatim>\<open>msg.data\<close> form a tagged union: the kind
  decides the shape of the data. \<open>OTHER\<close> stands for every kind that none of the seven
  comparisons of \<^verbatim>\<open>onMessage\<close> matches. The optional \<^verbatim>\<open>config\<close> of the artifact messages is
  an option.
\<close>

datatype body =
    RUN string
  | KILL
  | ADD_ARTIFACT string string string "string option"
  | SAVE_ARTIFACT string string string "string option"
  | ADD_FILE string string
  | SET_ENV string string
  | REMOVE_FILE string
  | OTHER string

datatype message = Message (msg_sessionID: string) (msg_body: body)

text \<open>What \<^verbatim>\<open>ws.send\<close> receives: \<^verbatim>\<open>Message.encode (sessionID, type, data)\<close>.\<close>

datatype out_type = STDOUT | STDERR | COMPLETE

datatype payload = Chunk string | Args "jsval list"

type_synonym packet = "string \<times> out_type \<times> payload"

record session =
  sessionID :: string
  activeMsgCount :: int
  subprocess :: "nat option"

text \<open>
  A child process as the agent sees it: the Session whose callbacks listen to it, the
  arguments of \<^verbatim>\<open>spawn\<close>, whether \<^verbatim>\<open>kill\<close> was called on it, and whether its \<^verbatim>\<open>exit\<close> event
  has been delivered. A process handle is an index into the list of spawned processes.
\<close>

record process =
  listener :: nat
  spawnfile :: string
  spawnargs :: "string list"
  kill_requested :: bool
  exited :: bool

text \<open>
  The services of the platform that the agent calls and does not implement. They are
  parameters of the model: \<^verbatim>\<open>__dirname\<close> and \<^verbatim>\<open>process.cwd ()\<close>, the primitives of
  \<^verbatim>\<open>fs.promises\<close> on a file system of type \<open>'f\<close> (each returns an error or succeeds, and
  the file system after it), whether \<^verbatim>\<open>spawn\<close> refuses its arguments with an exception,
  whether \<^verbatim>\<open>requirejs\<close> loads the storage adapters, and the two transfers of the storage
  client (download into a local file, upload of a local file).
\<close>

record 'f services =
  workspace_dir :: string
  cwd :: string
  fsp_mkdir :: "string \<Rightarrow> 'f \<Rightarrow> (error + unit) \<times> 'f"
  fsp_writeFile :: "string \<Rightarrow> string \<Rightarrow> 'f \<Rightarrow> (error + unit) \<times> 'f"
  fsp_unlink :: "string \<Rightarrow> 'f \<Rightarrow> (error + unit) \<times> 'f"
  spawn_throws :: "string \<Rightarrow> string list \<Rightarrow> error option"
  requirejs_fails :: "error option"
  fetch_stream :: "string \<Rightarrow> string \<Rightarrow> string \<Rightarrow> 'f \<Rightarrow> (error + unit) \<times> 'f"
  put_stream :: "string \<Rightarrow> string \<Rightarrow> string \<Rightarrow> string \<Rightarrow> 'f \<Rightarrow> (error + jsval) \<times> 'f"

text \<open>
  The state of the agent process. Session objects live in a store (\<open>objects\<close>, allocated at
  \<open>next_object\<close>): the Client's table \<open>sessions\<close> and the callbacks of a child process both
  refer to a Session by its address. \<open>sent\<close> lists the calls of \<^verbatim>\<open>ws.send\<close> in order,
  \<open>console\<close> what \<^verbatim>\<open>console.log\<close> printed, \<open>rejections\<close> the errors of promises that nothing
  awaits, \<open>environ\<close> is \<^verbatim>\<open>process.env\<close> and \<open>disk\<close> the file system.
\<close>

record 'f agent =
  sessions :: "string \<Rightarrow> nat option"
  objects :: "nat \<Rightarrow> session"
  next_object :: nat
  processes :: "process list"
  sent :: "packet list"
  console :: "error list"
  rejections :: "error list"
  environ :: "string \<Rightarrow> string option"
  disk :: 'f

section \<open>The Session\<close>

definition sendMessage :: "nat \<Rightarrow> out_type \<Rightarrow> payload \<Rightarrow> 'f agent \<Rightarrow> 'f agent" where
  "sendMessage this type data st =
     st\<lparr>sent := sent st @ [(sessionID (objects st this), type, data)]\<rparr>"

text \<open>\<^verbatim>\<open>onTaskComplete\<close> sends its own argument list and then decrements the counter.\<close>

definition onTaskComplete :: "nat \<Rightarrow> jsval list \<Rightarrow> 'f agent \<Rightarrow> 'f agent" where
  "onTaskComplete this data st =
     (let st1 = sendMessage this COMPLETE (Args data) st;
          s = objects st1 this
      in st1\<lparr>objects := (objects st1)(this := s\<lparr>activeMsgCount := activeMsgCount s - 1\<rparr>)\<rparr>)"

text \<open>
  \<^verbatim>\<open>runTask\<close>: the operation \<open>fn\<close> either throws (or rejects) with an error or returns a value;
  \<^verbatim>\<open>result\<close> stays \<^verbatim>\<open>undefined\<close> when it throws.
\<close>

definition runTask ::
  "nat \<Rightarrow> ('f agent \<Rightarrow> (error + jsval) \<times> 'f agent) \<Rightarrow> 'f agent \<Rightarrow> 'f agent" where
  "runTask this fn st =
     (case fn st of
        (Inl err, st1) \<Rightarrow>
          onTaskComplete this [Num 1, Undefined] (st1\<lparr>console := console st1 @ [err]\<rparr>)
      | (Inr result, st1) \<Rightarrow> onTaskComplete this [Num 0, result] st1)"

definition ensureValidPath :: "'f services \<Rightarrow> string \<Rightarrow> error + unit" where
  "ensureValidPath sv filepath =
     (let isOutsideWorkspace =
            startsWith (path_relative (cwd sv) (path_resolve (cwd sv) (workspace_dir sv))
                                      (path_resolve (cwd sv) filepath)) ''..''
      in if isOutsideWorkspace
         then Inl (Error (''Cannot edit files outside workspace: '' @ filepath))
         else Inr ())"

text \<open>
  \<^verbatim>\<open>mkdirp\<close>: the \<^verbatim>\<open>reduce\<close> starts at \<^verbatim>\<open>process.cwd ()\<close>, creates one directory after the other,
  swallows the error with code \<^verbatim>\<open>EEXIST\<close> and rethrows every other one.
\<close>

fun mkdirp_from :: "'f services \<Rightarrow> string \<Rightarrow> string list \<Rightarrow> 'f \<Rightarrow> (error + unit) \<times> 'f" where
  "mkdirp_from sv lastDir [] d = (Inr (), d)"
| "mkdirp_from sv lastDir (nextDir # rest) d =
     (let dir = path_join [lastDir, nextDir]
      in case fsp_mkdir sv dir d of
           (Inl err, d1) \<Rightarrow>
             (if err \<noteq> SysError ''EEXIST'' then (Inl err, d1) else mkdirp_from sv dir rest d1)
         | (Inr _, d1) \<Rightarrow> mkdirp_from sv dir rest d1)"

definition mkdirp :: "'f services \<Rightarrow> string list \<Rightarrow> 'f \<Rightarrow> (error + unit) \<times> 'f" where
  "mkdirp sv dirs d = mkdirp_from sv (cwd sv) dirs d"

definition writeFile :: "'f services \<Rightarrow> string \<Rightarrow> string \<Rightarrow> 'f \<Rightarrow> (error + unit) \<times> 'f" where
  "writeFile sv filepath content d =
     (let dirs = split_on slash (path_dirname filepath)
      in case mkdirp sv dirs d of
           (Inl err, d1) \<Rightarrow> (Inl err, d1)
         | (Inr _, d1) \<Rightarrow> fsp_writeFile sv filepath content d1)"

definition getStorageAdapters :: "'f services \<Rightarrow> error + unit" where
  "getStorageAdapters sv = (case requirejs_fails sv of Some err \<Rightarrow> Inl err | None \<Rightarrow> Inr ())"

definition newline :: char where
  "newline = CHR 0x0A"

definition initFile :: "string \<Rightarrow> string \<Rightarrow> string" where
  "initFile name type =
     (let dataPathCode = ''path.join(path.dirname(__file__), '' @ [squote] @ ''data''
                           @ [squote] @ '')''
      in join_sep [newline]
           [''import deepforge'',
            ''from os import path'',
            ''name = '' @ [squote] @ name @ [squote],
            ''type = '' @ [squote] @ type @ [squote],
            ''data = deepforge.serialization.load('' @ [squote] @ type @ [squote]
              @ '', open('' @ dataPathCode @ '', '' @ [squote] @ ''rb'' @ [squote] @ ''))''])"

text \<open>An operation on the file system, run on the disk of the agent.\<close>

definition on_disk :: "('f \<Rightarrow> (error + 'a) \<times> 'f) \<Rightarrow> 'f agent \<Rightarrow> (error + 'a) \<times> 'f agent" where
  "on_disk f st = (case f (disk st) of (r, d) \<Rightarrow> (r, st\<lparr>disk := d\<rparr>))"

text \<open>
  The closures that \<^verbatim>\<open>onMessage\<close> hands to \<^verbatim>\<open>runTask\<close>. In \<^verbatim>\<open>fetchArtifact\<close> the storage client
  streams the data into the file \<^verbatim>\<open>data\<close>, then the file \<^verbatim>\<open>__init__.py\<close> is written. In the
  closure of \<^verbatim>\<open>ADD_FILE\<close> the promise of \<^verbatim>\<open>this.writeFile\<close> is neither awaited nor returned:
  the closure returns \<^verbatim>\<open>undefined\<close> at once, and an error of the write is a rejection that
  nothing handles. What the write does to the file system is applied in the same step.
\<close>

definition fetchArtifact ::
  "'f services \<Rightarrow> string \<Rightarrow> string \<Rightarrow> string \<Rightarrow> string \<Rightarrow> 'f agent \<Rightarrow> (error + jsval) \<times> 'f agent" where
  "fetchArtifact sv name dataInfo type config st =
     (let dirs = [''artifacts'', name];
          dataPath = path_join (dirs @ [''data''])
      in case on_disk (fetch_stream sv dataInfo config dataPath) st of
           (Inl err, st1) \<Rightarrow> (Inl err, st1)
         | (Inr _, st1) \<Rightarrow>
             (let filePath = path_join (dirs @ [''__init__.py''])
              in case on_disk (fsp_writeFile sv filePath (initFile name type)) st1 of
                   (Inl err, st2) \<Rightarrow> (Inl err, st2)
                 | (Inr _, st2) \<Rightarrow> (Inr Undefined, st2)))"

definition saveArtifact ::
  "'f services \<Rightarrow> string \<Rightarrow> string \<Rightarrow> string \<Rightarrow> string \<Rightarrow> 'f agent \<Rightarrow> (error + jsval) \<times> 'f agent" where
  "saveArtifact sv filepath name backend config st =
     on_disk (put_stream sv backend config name filepath) st"

definition addFile ::
  "'f services \<Rightarrow> string \<Rightarrow> string \<Rightarrow> 'f agent \<Rightarrow> (error + jsval) \<times> 'f agent" where
  "addFile sv filepath content st =
     (case ensureValidPath sv filepath of
        Inl err \<Rightarrow> (Inl err, st)
      | Inr _ \<Rightarrow>
          (case on_disk (writeFile sv filepath content) st of
             (Inl err, st1) \<Rightarrow> (Inr Undefined, st1\<lparr>rejections := rejections st1 @ [err]\<rparr>)
           | (Inr _, st1) \<Rightarrow> (Inr Undefined, st1)))"

definition setEnv :: "string \<Rightarrow> string \<Rightarrow> 'f agent \<Rightarrow> (error + jsval) \<times> 'f agent" where
  "setEnv name val st = (Inr Undefined, st\<lparr>environ := (environ st)(name \<mapsto> val)\<rparr>)"

definition removeFile :: "'f services \<Rightarrow> string \<Rightarrow> 'f agent \<Rightarrow> (error + jsval) \<times> 'f agent" where
  "removeFile sv filepath st =
     (case ensureValidPath sv filepath of
        Inl err \<Rightarrow> (Inl err, st)
      | Inr _ \<Rightarrow>
          (case on_disk (fsp_unlink sv filepath) st of
             (Inl err, st1) \<Rightarrow> (Inl err, st1)
           | (Inr _, st1) \<Rightarrow> (Inr Undefined, st1)))"

text \<open>
  \<^verbatim>\<open>spawn\<close> and the three listeners: the new process is recorded with the Session \<open>this\<close>
  as its listener, and its handle is stored in \<^verbatim>\<open>this.subprocess\<close>.
\<close>

definition spawn_process :: "nat \<Rightarrow> string \<Rightarrow> string list \<Rightarrow> 'f agent \<Rightarrow> 'f agent" where
  "spawn_process this cmd opts st =
     (let pid = length (processes st);
          s = objects st this
      in st\<lparr>processes := processes st @
                [\<lparr>listener = this, spawnfile = cmd, spawnargs = opts,
                  kill_requested = False, exited = False\<rparr>],
            objects := (objects st)(this := s\<lparr>subprocess := Some pid\<rparr>)\<rparr>)"

definition kill_process :: "nat \<Rightarrow> 'f agent \<Rightarrow> 'f agent" where
  "kill_process pid st =
     st\<lparr>processes := (processes st)[pid := (processes st ! pid)\<lparr>kill_requested := True\<rparr>]\<rparr>"

definition count_up :: "nat \<Rightarrow> 'f agent \<Rightarrow> 'f agent" where
  "count_up this st =
     (let s = objects st this
      in st\<lparr>objects := (objects st)(this := s\<lparr>activeMsgCount := activeMsgCount s + 1\<rparr>)\<rparr>)"

text \<open>
  \<^verbatim>\<open>InteractiveSession.onMessage\<close>. The result is \<open>Inl\<close> when the promise of \<^verbatim>\<open>onMessage\<close>
  rejects: \<^verbatim>\<open>spawn\<close> threw, or, for \<^verbatim>\<open>ADD_ARTIFACT\<close> and \<^verbatim>\<open>SAVE_ARTIFACT\<close>, one of the awaits
  that stand before \<^verbatim>\<open>runTask\<close> failed. The destructuring of \<^verbatim>\<open>parseCommand\<close>'s result binds
  \<^verbatim>\<open>cmd\<close> to \<^verbatim>\<open>undefined\<close> for an empty array, which \<^verbatim>\<open>spawn\<close> refuses.
\<close>

definition session_onMessage ::
  "'f services \<Rightarrow> nat \<Rightarrow> message \<Rightarrow> 'f agent \<Rightarrow> (error + unit) \<times> 'f agent" where
  "session_onMessage sv this msg st0 =
     (let st = count_up this st0
      in case msg_body msg of
           RUN command \<Rightarrow>
             (case parseCommand command of
                [] \<Rightarrow> (Inl (Error ''The file argument must be of type string''), st)
              | cmd # opts \<Rightarrow>
                  (case spawn_throws sv cmd opts of
                     Some err \<Rightarrow> (Inl err, st)
                   | None \<Rightarrow> (Inr (), spawn_process this cmd opts st)))
         | KILL \<Rightarrow>
             (case subprocess (objects st this) of
                Some pid \<Rightarrow> (Inr (), kill_process pid st)
              | None \<Rightarrow> (Inr (), st))
         | ADD_ARTIFACT name dataInfo type config \<Rightarrow>
             (case on_disk (mkdirp sv [''artifacts'', name]) st of
                (Inl err, st1) \<Rightarrow> (Inl err, st1)
              | (Inr _, st1) \<Rightarrow>
                  (case getStorageAdapters sv of
                     Inl err \<Rightarrow> (Inl err, st1)
                   | Inr _ \<Rightarrow>
                       (Inr (), runTask this
                          (fetchArtifact sv name dataInfo type
                             (case config of None \<Rightarrow> ''{}'' | Some c \<Rightarrow> c)) st1)))
         | SAVE_ARTIFACT filepath name backend config \<Rightarrow>
             (case getStorageAdapters sv of
                Inl err \<Rightarrow> (Inl err, st)
              | Inr _ \<Rightarrow>
                  (Inr (), runTask this
                     (saveArtifact sv filepath name backend
                        (case config of None \<Rightarrow> ''{}'' | Some c \<Rightarrow> c)) st))
         | ADD_FILE filepath content \<Rightarrow> (Inr (), runTask this (addFile sv filepath content) st)
         | SET_ENV name val \<Rightarrow> (Inr (), runTask this (setEnv name val) st)
         | REMOVE_FILE filepath \<Rightarrow> (Inr (), runTask this (removeFile sv filepath) st)
         | OTHER kind \<Rightarrow> (Inr (), onTaskComplete this [Num 2] st))"

text \<open>
  The events of a child process. The \<^verbatim>\<open>exit\<close> event is delivered once, to the listener
  registered at \<^verbatim>\<open>spawn\<close>: \<^verbatim>\<open>code => this.onTaskComplete (code)\<close>.
\<close>

definition process_exit :: "nat \<Rightarrow> jsval \<Rightarrow> 'f agent \<Rightarrow> 'f agent" where
  "process_exit pid code st =
     (if pid < length (processes st) \<and> \<not> exited (processes st ! pid)
      then onTaskComplete (listener (processes st ! pid)) [code]
             (st\<lparr>processes := (processes st)[pid := (processes st ! pid)\<lparr>exited := True\<rparr>]\<rparr>)
      else st)"

definition process_stdout :: "nat \<Rightarrow> string \<Rightarrow> 'f agent \<Rightarrow> 'f agent" where
  "process_stdout pid data st =
     (if pid < length (processes st)
      then sendMessage (listener (processes st ! pid)) STDOUT (Chunk data) st else st)"

definition process_stderr :: "nat \<Rightarrow> string \<Rightarrow> 'f agent \<Rightarrow> 'f agent" where
  "process_stderr pid data st =
     (if pid < length (processes st)
      then sendMessage (listener (processes st ! pid)) STDERR (Chunk data) st else st)"

section \<open>The Client\<close>

text \<open>
  \<^verbatim>\<open>this.sessions\<close> is a plain object, so the names that every object inherits from
  \<^verbatim>\<open>Object.prototype\<close> read as present in it although no Session was stored under them.
\<close>

definition inherited_property :: "string \<Rightarrow> bool" where
  "inherited_property k =
     (k \<in> set [''constructor'', ''__proto__'', ''hasOwnProperty'', ''isPrototypeOf'',
               ''propertyIsEnumerable'', ''toLocaleString'', ''toString'', ''valueOf'',
               ''__defineGetter__'', ''__defineSetter__'', ''__lookupGetter__'',
               ''__lookupSetter__''])"

definition new_session :: "string \<Rightarrow> 'f agent \<Rightarrow> 'f agent" where
  "new_session sid st =
     st\<lparr>objects := (objects st)(next_object st :=
            \<lparr>sessionID = sid, activeMsgCount = 0, subprocess = None\<rparr>),
        next_object := Suc (next_object st),
        sessions := (sessions st)(sid \<mapsto> next_object st)\<rparr>"

text \<open>
  \<^verbatim>\<open>InteractiveClient.onMessage\<close>, run from its first line to its last without another
  event in between. When the promise of the Session's \<^verbatim>\<open>onMessage\<close> rejects, the \<^verbatim>\<open>await\<close>
  throws and the lines after it do not run.
\<close>

definition client_onMessage ::
  "'f services \<Rightarrow> message \<Rightarrow> 'f agent \<Rightarrow> (error + unit) \<times> 'f agent" where
  "client_onMessage sv msg st0 =
     (let sid = msg_sessionID msg
      in if inherited_property sid
         then (Inl (Error ''this.sessions[sessionID].onMessage is not a function''), st0)
         else (let st = (case sessions st0 sid of None \<Rightarrow> new_session sid st0 | Some _ \<Rightarrow> st0)
               in case sessions st sid of
                    None \<Rightarrow> (Inl (Error ''Cannot read property of undefined''), st)
                  | Some this \<Rightarrow>
                      (case session_onMessage sv this msg st of
                         (Inl err, st1) \<Rightarrow> (Inl err, st1)
                       | (Inr _, st1) \<Rightarrow>
                           (case sessions st1 sid of
                              None \<Rightarrow> (Inl (Error ''Cannot read property of undefined''), st1)
                            | Some that \<Rightarrow>
                                (if activeMsgCount (objects st1 that) = 0
                                 then (Inr (), st1\<lparr>sessions := (sessions st1)(sid := None)\<rparr>)
                                 else (Inr (), st1))))))"

text \<open>The agent when it starts: no Session, no process, nothing sent.\<close>

definition initial :: "'f \<Rightarrow> 'f agent" where
  "initial d =
     \<lparr>sessions = (\<lambda>_. None),
      objects = (\<lambda>_. \<lparr>sessionID = [], activeMsgCount = 0, subprocess = None\<rparr>),
      next_object = 0, processes = [], sent = [], console = [], rejections = [],
      environ = (\<lambda>_. None), disk = d\<rparr>"

section \<open>A small platform for closed examples\<close>

text \<open>
  The theorems below hold for every platform. To run the agent on concrete inputs, this
  platform has a file system given as a list of entries, the newest first: an absolute path
  with \<open>None\<close> for a directory and \<open>Some content\<close> for a regular file. The workspace and
  the working directory are \<^verbatim>\<open>/w\<close>. \<^verbatim>\<open>spawn\<close> refuses the empty file name, as Node does.
\<close>

type_synonym toy_disk = "(string \<times> string option) list"

definition toy_mkdir :: "string \<Rightarrow> toy_disk \<Rightarrow> (error + unit) \<times> toy_disk" where
  "toy_mkdir p d =
     (let k = path_resolve ''/w'' p
      in if map_of d k \<noteq> None then (Inl (SysError ''EEXIST''), d)
         else if map_of d (path_dirname k) = Some None then (Inr (), (k, None) # d)
         else if map_of d (path_dirname k) = None then (Inl (SysError ''ENOENT''), d)
         else (Inl (SysError ''ENOTDIR''), d))"

definition toy_writeFile :: "string \<Rightarrow> string \<Rightarrow> toy_disk \<Rightarrow> (error + unit) \<times> toy_disk" where
  "toy_writeFile p content d =
     (let k = path_resolve ''/w'' p
      in if map_of d (path_dirname k) = Some None
         then (if map_of d k = Some None then (Inl (SysError ''EISDIR''), d)
               else (Inr (), (k, Some content) # d))
         else if map_of d (path_dirname k) = None then (Inl (SysError ''ENOENT''), d)
         else (Inl (SysError ''ENOTDIR''), d))"

definition toy_unlink :: "string \<Rightarrow> toy_disk \<Rightarrow> (error + unit) \<times> toy_disk" where
  "toy_unlink p d =
     (let k = path_resolve ''/w'' p
      in case map_of d k of
           None \<Rightarrow> (Inl (SysError ''ENOENT''), d)
         | Some None \<Rightarrow> (Inl (SysError ''EISDIR''), d)
         | Some (Some _) \<Rightarrow> (Inr (), filter (\<lambda>e. fst e \<noteq> k) d))"

definition toy_put :: "string \<Rightarrow> string \<Rightarrow> string \<Rightarrow> string \<Rightarrow> toy_disk \<Rightarrow> (error + jsval) \<times> toy_disk" where
  "toy_put backend config name filepath d =
     (case map_of d (path_resolve ''/w'' filepath) of
        Some (Some _) \<Rightarrow> (Inr (Data name), d)
      | _ \<Rightarrow> (Inl (SysError ''ENOENT''), d))"

definition toy_services :: "toy_disk services" where
  "toy_services =
     \<lparr>workspace_dir = ''/w'', cwd = ''/w'',
      fsp_mkdir = toy_mkdir, fsp_writeFile = toy_writeFile, fsp_unlink = toy_unlink,
      spawn_throws = (\<lambda>cmd opts. if cmd = [] then Some (Error ''The argument file cannot be empty'')
                                  else None),
      requirejs_fails = None,
      fetch_stream = (\<lambda>dataInfo config dataPath. toy_writeFile dataPath dataInfo),
      put_stream = toy_put\<rparr>"

definition toy_workspace :: toy_disk where
  "toy_workspace = [(''/w'', None), (''/'', None)]"

text \<open>
  Runs of the agent on this platform, named for the examples. In each the controller talks
  to the session \<^verbatim>\<open>s\<close>. First \<^verbatim>\<open>RUN sleep 100\<close> arrives. Then either the process exits with
  code 0 and a \<^verbatim>\<open>KILL\<close> arrives afterwards, or the \<^verbatim>\<open>KILL\<close> arrives while the process runs and
  the process, ended by the signal, exits with the code \<^verbatim>\<open>null\<close>.
\<close>

definition after_run :: "toy_disk agent" where
  "after_run =
     snd (client_onMessage toy_services (Message ''s'' (RUN ''sleep 100''))
            (initial toy_workspace))"

definition after_run_exit :: "toy_disk agent" where
  "after_run_exit = process_exit 0 (Num 0) after_run"

definition after_run_exit_kill :: "toy_disk agent" where
  "after_run_exit_kill = snd (client_onMessage toy_services (Message ''s'' KILL) after_run_exit)"

definition after_run_kill_exit :: "toy_disk agent" where
  "after_run_kill_exit =
     process_exit 0 Null (snd (client_onMessage toy_services (Message ''s'' KILL) after_run))"

text \<open>
  Two workspaces in which a regular file stands where a directory is needed: \<^verbatim>\<open>sub\<close> for
  the file \<^verbatim>\<open>sub/file.txt\<close>, and \<^verbatim>\<open>artifacts\<close> for the directory of an artifact.
\<close>

definition file_in_the_way :: toy_disk where
  "file_in_the_way = (''/w/sub'', Some ''not a directory'') # toy_workspace"

definition artifacts_is_a_file :: toy_disk where
  "artifacts_is_a_file = (''/w/artifacts'', Some ''not a directory'') # toy_workspace"

section \<open>Properties of the tokenizer\<close>

lemma tokenize_not_Nil: "tokenize q cs \<noteq> []"
proof (induction q cs rule: tokenize.induct)
  case (1 q)
  show ?case by simp
next
  case (2 c cs)
  then show ?case by (cases "tokenize None cs") auto
next
  case (3 q c cs)
  then show ?case by (cases "tokenize (Some q) cs") auto
qed

text \<open>
  The loop invariant: the chunks closed so far stay as they are, the chunk under
  construction receives the first token of the rest, and the further tokens follow.
\<close>

lemma parse_loop_tokenize:
  "fst (parse_loop cs (done @ [cur], q)) =
     done @ (cur @ hd (tokenize q cs)) # tl (tokenize q cs)"
proof (induction cs arbitrary: "done" cur q)
  case Nil
  show ?case by simp
next
  case (Cons c cs)
  show ?case
  proof (cases q)
    case None
    show ?thesis
    proof (cases "c = dquote \<or> c = squote")
      case True
      then show ?thesis
        using None Cons.IH [of "done" cur "Some c"] by (simp add: parse_step_def)
    next
      case notq: False
      show ?thesis
      proof (cases "c = blank")
        case True
        then show ?thesis
          using None notq Cons.IH [of "done @ [cur]" "[]" None] tokenize_not_Nil [of None cs]
          by (simp add: parse_step_def)
      next
        case False
        then show ?thesis
          using None notq Cons.IH [of "done" "cur @ [c]" None] tokenize_not_Nil [of None cs]
          by (cases "tokenize None cs") (simp_all add: parse_step_def)
      qed
    qed
  next
    case (Some q')
    show ?thesis
    proof (cases "c = q'")
      case True
      then show ?thesis
        using Some Cons.IH [of "done" cur None] by (simp add: parse_step_def)
    next
      case False
      then show ?thesis
        using Some Cons.IH [of "done" "cur @ [c]" "Some q'"] tokenize_not_Nil [of "Some q'" cs]
        by (cases "tokenize (Some q') cs") (auto simp add: parse_step_def)
    qed
  qed
qed

lemma parseCommand_tokenize: "parseCommand cmd = tokenize None cmd"
  using parse_loop_tokenize [of cmd "[]" "[]" None] tokenize_not_Nil [of None cmd]
  by (cases "tokenize None cmd") (simp_all add: parseCommand_def)

text \<open>
  Claim C4. \<^verbatim>\<open>parseCommand\<close> is a total function of its argument alone. It computes the
  tokens of the quote machine of section 4.1: it splits at the blanks outside quotes, a quote
  character opens a span that only the same character closes, the opening and the closing
  quote are left out of the tokens and the other quote character inside a span is kept. The
  empty string gives the single empty token, \<^verbatim>\<open>run -x "a b" c\<close> gives
  \<^verbatim>\<open>run\<close>, \<^verbatim>\<open>-x\<close>, \<^verbatim>\<open>a b\<close>, \<^verbatim>\<open>c\<close>, and \<^verbatim>\<open>echo 'it"s'\<close> gives \<^verbatim>\<open>echo\<close>, \<^verbatim>\<open>it"s\<close>; the same holds
  with the two quote characters exchanged.
\<close>

theorem parseCommand_refines_tokenizer:
  "parseCommand cmd = tokenize None cmd
   \<and> parseCommand [] = [[]]
   \<and> parseCommand (''run -x '' @ [dquote] @ ''a b'' @ [dquote] @ '' c'')
       = [''run'', ''-x'', ''a b'', ''c'']
   \<and> parseCommand (''echo '' @ [squote] @ ''it'' @ [dquote] @ ''s'' @ [squote])
       = [''echo'', ''it'' @ [dquote] @ ''s'']
   \<and> parseCommand (''echo '' @ [dquote] @ ''it'' @ [squote] @ ''s'' @ [dquote])
       = [''echo'', ''it'' @ [squote] @ ''s'']"
  by (simp add: parseCommand_tokenize dquote_def squote_def blank_def)

lemma hd_tl_tokenize: "hd (tokenize q cs) # tl (tokenize q cs) = tokenize q cs"
  by (simp add: tokenize_not_Nil)

lemma parse_loop_append: "parse_loop (xs @ ys) st = parse_loop ys (parse_loop xs st)"
  by (induction xs arbitrary: st) simp_all

lemma parseCommand_after_blank:
  assumes "openQuote xs = None"
  shows "parseCommand (xs @ blank # ys) = parseCommand xs @ parseCommand ys"
proof -
  obtain chunks where st: "parse_loop xs ([[]], None) = (chunks, None)"
    using assms by (cases "parse_loop xs ([[]], None)") (simp add: openQuote_def)
  have "parse_step (chunks, None) blank = (chunks @ [[]], None)"
    by (simp add: parse_step_def blank_def dquote_def squote_def)
  then have "parse_loop (xs @ blank # ys) ([[]], None) = parse_loop ys (chunks @ [[]], None)"
    by (simp add: parse_loop_append st)
  then have "parseCommand (xs @ blank # ys) = chunks @ tokenize None ys"
    using parse_loop_tokenize [of ys chunks "[]" None]
    by (simp add: parseCommand_def hd_tl_tokenize)
  moreover have "parseCommand xs = chunks"
    by (simp add: parseCommand_def st)
  ultimately show ?thesis
    by (simp add: parseCommand_tokenize)
qed

section \<open>Properties of the path functions\<close>

lemma split_on_no_sep: "sep \<notin> set x \<Longrightarrow> split_on sep x = [x]"
  by (induction x) auto

lemma split_on_append: "sep \<notin> set x \<Longrightarrow> split_on sep (x @ sep # rest) = x # split_on sep rest"
  by (induction x) auto

lemma split_on_free: "x \<in> set (split_on sep s) \<Longrightarrow> sep \<notin> set x"
proof (induction s arbitrary: x)
  case Nil
  then show ?case by simp
next
  case (Cons c s)
  then show ?case
    by (cases "split_on sep s") (auto split: if_splits)
qed

lemma normalizeSegments_clean:
  assumes "\<forall>x \<in> set res. clean x" and "\<forall>x \<in> set ss. slash \<notin> set x"
  shows "\<forall>x \<in> set (normalizeSegments False res ss). clean x"
  using assms
proof (induction ss arbitrary: res)
  case Nil
  then show ?case by simp
next
  case (Cons s ss)
  have shorter: "\<forall>x \<in> set (butlast res). clean x"
    using Cons.prems(1) by (meson in_set_butlastD)
  have rest: "\<forall>x \<in> set ss. slash \<notin> set x"
    using Cons.prems(2) by simp
  have same: "\<forall>x \<in> set (normalizeSegments False res ss). clean x"
    using Cons.IH [OF Cons.prems(1) rest] .
  have popped: "\<forall>x \<in> set (normalizeSegments False (butlast res) ss). clean x"
    using Cons.IH [OF shorter rest] .
  consider (skip) "s = [] \<or> s = ''.''" | (up) "s = ''..''"
    | (name) "s \<noteq> [] \<and> s \<noteq> ''.'' \<and> s \<noteq> ''..''"
    by blast
  then show ?case
  proof cases
    case skip
    then have "normalizeSegments False res (s # ss) = normalizeSegments False res ss"
      by simp
    then show ?thesis
      using same by simp
  next
    case up
    then have "normalizeSegments False res (s # ss) = normalizeSegments False res ss
             \<or> normalizeSegments False res (s # ss) = normalizeSegments False (butlast res) ss"
      by simp
    then show ?thesis
      using same popped by metis
  next
    case name
    then have step: "normalizeSegments False res (s # ss) = normalizeSegments False (res @ [s]) ss"
      by simp
    have "clean s"
      using name Cons.prems(2) by (simp add: clean_def)
    then have "\<forall>x \<in> set (res @ [s]). clean x"
      using Cons.prems(1) by simp
    then have "\<forall>x \<in> set (normalizeSegments False (res @ [s]) ss). clean x"
      using Cons.IH rest by blast
    then show ?thesis
      using step by simp
  qed
qed

lemma normalizeSegments_of_clean:
  assumes "\<forall>x \<in> set segs. clean x"
  shows "normalizeSegments allow res (split_on slash (join_sep [slash] segs @ [slash])) = res @ segs"
  using assms
proof (induction segs arbitrary: res)
  case Nil
  show ?case by simp
next
  case (Cons x ys)
  show ?case
  proof (cases ys)
    case Nil
    then show ?thesis
      using Cons.prems by (simp add: split_on_append clean_def)
  next
    case (Cons y zs)
    then show ?thesis
      using Cons.prems Cons.IH [of "res @ [x]"] by (simp add: split_on_append clean_def)
  qed
qed

lemma filter_split_of_clean:
  assumes "\<forall>x \<in> set segs. clean x"
  shows "filter (\<lambda>s. s \<noteq> []) (split_on slash (join_sep [slash] segs)) = segs"
  using assms
proof (induction segs)
  case Nil
  show ?case by simp
next
  case (Cons x ys)
  show ?case
  proof (cases ys)
    case Nil
    then show ?thesis
      using Cons.prems by (simp add: split_on_no_sep clean_def)
  next
    case (Cons y zs)
    then show ?thesis
      using Cons.prems Cons.IH by (simp add: split_on_append clean_def)
  qed
qed

lemma segments_of_clean:
  assumes "\<forall>x \<in> set segs. clean x"
  shows "segments (slash # join_sep [slash] segs) = segs"
  using filter_split_of_clean [OF assms] by (simp add: segments_def)

lemma isAbsolute_append: "isAbsolute p \<Longrightarrow> isAbsolute (p @ q)"
  by (cases p) (simp_all add: isAbsolute_def)

lemma path_resolve_resolved:
  assumes "isAbsolute wd"
  shows "path_resolve wd p = slash # join_sep [slash] (resolved wd p)"
  using assms isAbsolute_append [of wd]  isAbsolute_append [of p]
  by (simp add: path_resolve_def resolved_def normalizeString_def Let_def)

lemma resolved_clean: "\<forall>x \<in> set (resolved wd p). clean x"
  unfolding resolved_def
  by (rule normalizeSegments_clean) (auto dest: split_on_free)

lemma path_resolve_idem:
  assumes "isAbsolute wd"
  shows "path_resolve wd (path_resolve wd p) = path_resolve wd p"
proof -
  let ?q = "slash # join_sep [slash] (resolved wd p)"
  have "resolved wd ?q = resolved wd p"
    using normalizeSegments_of_clean [OF resolved_clean, of False "[]" wd p]
    by (simp add: resolved_def [of wd ?q] isAbsolute_def)
  then show ?thesis
    using assms by (simp add: path_resolve_resolved)
qed

lemma segments_path_resolve:
  assumes "isAbsolute wd"
  shows "segments (path_resolve wd p) = resolved wd p"
  using assms by (simp add: path_resolve_resolved segments_of_clean resolved_clean)

lemma drop_common_prefix:
  "drop_common xs ys = (f, t) \<Longrightarrow>
     (f = [] \<longleftrightarrow> (\<exists>rest. ys = xs @ rest)) \<and> (f = [] \<longrightarrow> ys = xs @ t)"
  by (induction xs ys rule: drop_common.induct) (auto split: if_splits)

lemma drop_common_same: "drop_common xs xs = ([], [])"
  by (induction xs) auto

lemma startsWith_join:
  assumes "\<forall>x \<in> set t. x \<noteq> []"
  shows "startsWith (join_sep [slash] t) ''..'' \<longleftrightarrow> (t \<noteq> [] \<and> startsWith (hd t) ''..'')"
proof (cases t)
  case Nil
  then show ?thesis by (simp add: startsWith_def)
next
  case (Cons x ts)
  then have x: "x \<noteq> []" using assms by simp
  show ?thesis
  proof (cases ts)
    case Nil
    then show ?thesis using Cons by simp
  next
    case (Cons y ys)
    obtain c cs where "x = c # cs" using x by (cases x) auto
    then show ?thesis
      using \<open>t = x # ts\<close> Cons
      by (cases cs) (auto simp add: startsWith_def slash_def)
  qed
qed

lemma startsWith_climb:
  "f \<noteq> [] \<Longrightarrow> startsWith (join_sep [slash] (map (\<lambda>_. ''..'') f @ t)) ''..''"
proof -
  assume "f \<noteq> []"
  then obtain a f' where "f = a # f'" by (cases f) auto
  then show ?thesis
    by (cases "map (\<lambda>_. ''..'') f' @ t") (simp_all add: startsWith_def)
qed

section \<open>Properties of the Session\<close>

lemmas agent_defs = count_up_def onTaskComplete_def sendMessage_def runTask_def
  spawn_process_def kill_process_def on_disk_def

lemma s_not_inherited: "\<not> inherited_property ''s''"
  by (simp add: inherited_property_def)

lemma after_run_eq:
  "after_run = (initial toy_workspace)
     \<lparr>objects := (objects (initial toy_workspace))
         (0 := \<lparr>sessionID = ''s'', activeMsgCount = 1, subprocess = Some 0\<rparr>),
      next_object := 1,
      sessions := (sessions (initial toy_workspace))(''s'' \<mapsto> 0),
      processes := [\<lparr>listener = 0, spawnfile = ''sleep'', spawnargs = [''100''],
                     kill_requested = False, exited = False\<rparr>]\<rparr>"
proof -
  have tok: "parseCommand ''sleep 100'' = [''sleep'', ''100'']"
    by (simp add: parseCommand_tokenize dquote_def squote_def blank_def)
  show ?thesis
    by (simp add: after_run_def client_onMessage_def s_not_inherited new_session_def
        session_onMessage_def tok toy_services_def agent_defs initial_def Let_def)
qed

text \<open>
  Claim C10. A blank read while no quote is open starts a new token: the tokens of
  \<open>xs\<close>, blank, \<open>ys\<close> are the tokens of \<open>xs\<close> followed by the tokens of \<open>ys\<close>. Hence a
  blank at the end leaves an empty last token and two blanks in a row leave an empty token
  between them: \<^verbatim>\<open>a  b\<close> gives \<^verbatim>\<open>a\<close>, the empty token, \<^verbatim>\<open>b\<close>, and \<^verbatim>\<open>a\<close> with a blank after
  it gives \<^verbatim>\<open>a\<close> and the empty token. \<^verbatim>\<open>RUN\<close> passes the empty tokens on: for \<^verbatim>\<open>a  b\<close> the
  process \<^verbatim>\<open>a\<close> is spawned with the empty string and \<^verbatim>\<open>b\<close> as its arguments.
\<close>

theorem parseCommand_blank_starts_token:
  assumes "openQuote xs = None"
  shows "parseCommand (xs @ blank # ys) = parseCommand xs @ parseCommand ys
       \<and> parseCommand (xs @ [blank]) = parseCommand xs @ [[]]
       \<and> parseCommand (xs @ blank # blank # ys) = parseCommand xs @ [] # parseCommand ys
       \<and> parseCommand ''a  b'' = [''a'', [], ''b'']
       \<and> parseCommand ''a '' = [''a'', []]
       \<and> processes (snd (session_onMessage toy_services this (Message sid (RUN ''a  b''))
                           (initial toy_workspace)))
           = [\<lparr>listener = this, spawnfile = ''a'', spawnargs = [[], ''b''],
               kill_requested = False, exited = False\<rparr>]"
proof -
  have empty: "openQuote [] = None" "parseCommand [] = [[]]"
    by (simp_all add: openQuote_def parseCommand_def)
  have one: "parseCommand (xs @ blank # ys) = parseCommand xs @ parseCommand ys" for ys
    using assms by (rule parseCommand_after_blank)
  have two: "parseCommand (blank # ys) = [] # parseCommand ys"
    using parseCommand_after_blank [of "[]" ys] empty by simp
  have ab: "parseCommand ''a  b'' = [''a'', [], ''b'']" "parseCommand ''a '' = [''a'', []]"
    by (simp_all add: parseCommand_tokenize dquote_def squote_def blank_def)
  have run: "processes (snd (session_onMessage toy_services this (Message sid (RUN ''a  b''))
                              (initial toy_workspace)))
           = [\<lparr>listener = this, spawnfile = ''a'', spawnargs = [[], ''b''],
               kill_requested = False, exited = False\<rparr>]"
    by (simp add: session_onMessage_def ab toy_services_def spawn_process_def count_up_def
        initial_def Let_def)
  show ?thesis
    using one [of ys] one [of "[]"] one [of "blank # ys"] two empty ab run by simp
qed

theorem parseCommand_blank_starts_token_witness:
  "openQuote ''a'' = None
   \<and> parseCommand (''a'' @ blank # '' b'') = [''a'', [], ''b'']
   \<and> parseCommand (''a'' @ [blank]) = [''a'', []]"
proof -
  have h: "openQuote ''a'' = None"
    by (simp add: openQuote_def parse_step_def dquote_def squote_def blank_def)
  have a: "parseCommand ''a'' = [''a'']" "parseCommand '' b'' = [[], ''b'']"
    by (simp_all add: parseCommand_tokenize dquote_def squote_def blank_def)
  show ?thesis
    using h a parseCommand_blank_starts_token [OF h, of "'' b''"] by simp
qed

text \<open>
  Claim C3. \<^verbatim>\<open>runTask\<close> runs the operation and then reports once: one \<^verbatim>\<open>COMPLETE\<close> message
  is appended to what the operation itself left in the outbox, and the counter of the Session
  goes down by one. When the operation returns, the message carries the code 0 and the
  returned value (\<^verbatim>\<open>undefined\<close> when it returns none); when it fails, the message carries the
  code 1 and \<^verbatim>\<open>undefined\<close>, and the error is printed on the console. \<^verbatim>\<open>runTask\<close> itself always
  returns: its result is a state, the error goes no further (it is not among the rejections).
\<close>

theorem runTask_reports_once:
  assumes "fn st = (r, st1)"
  shows "sent (runTask this fn st) =
           sent st1 @ [(sessionID (objects st1 this), COMPLETE,
                        Args [Num (case r of Inl _ \<Rightarrow> 1 | Inr _ \<Rightarrow> 0),
                              (case r of Inl _ \<Rightarrow> Undefined | Inr v \<Rightarrow> v)])]
       \<and> console (runTask this fn st) = console st1 @ (case r of Inl err \<Rightarrow> [err] | Inr _ \<Rightarrow> [])
       \<and> activeMsgCount (objects (runTask this fn st) this) = activeMsgCount (objects st1 this) - 1
       \<and> rejections (runTask this fn st) = rejections st1"
  using assms by (cases r) (simp_all add: runTask_def onTaskComplete_def sendMessage_def Let_def)

theorem runTask_reports_once_witness:
  "sent (runTask 0 (setEnv ''A'' ''1'') (initial ())) = [([], COMPLETE, Args [Num 0, Undefined])]
   \<and> sent (runTask 0 (\<lambda>st. (Inr (Data ''d''), st)) (initial ()))
       = [([], COMPLETE, Args [Num 0, Data ''d''])]
   \<and> sent (runTask 0 (\<lambda>st. (Inl (Error ''boom''), st)) (initial ()))
       = [([], COMPLETE, Args [Num 1, Undefined])]
   \<and> console (runTask 0 (\<lambda>st. (Inl (Error ''boom''), st)) (initial ())) = [Error ''boom'']
   \<and> activeMsgCount (objects (runTask 0 (\<lambda>st. (Inl (Error ''boom''), st)) (initial ())) 0) = - 1"
  using runTask_reports_once [of "setEnv ''A'' ''1''" "initial ()" "Inr Undefined"
                                  "snd (setEnv ''A'' ''1'' (initial ()))" 0]
    runTask_reports_once [of "\<lambda>st. (Inr (Data ''d''), st)" "initial ()" "Inr (Data ''d'')"
                             "initial ()" 0]
    runTask_reports_once [of "\<lambda>st. (Inl (Error ''boom''), st)" "initial ()"
                             "Inl (Error ''boom'')" "initial ()" 0]
  by (simp add: setEnv_def initial_def)

text \<open>
  Claim C9. A message of a kind that no handler knows returns normally and is completed at
  once: the message \<^verbatim>\<open>COMPLETE\<close> with the single argument 2 is sent, the counter is back at
  its value, and nothing is printed, written or spawned. No completion that \<^verbatim>\<open>runTask\<close>
  sends (code 0 or code 1) equals it.
\<close>

theorem unknown_kind_completes_with_2:
  "fst (session_onMessage sv this (Message sid (OTHER kind)) st) = Inr ()
   \<and> sent (snd (session_onMessage sv this (Message sid (OTHER kind)) st))
       = sent st @ [(sessionID (objects st this), COMPLETE, Args [Num 2])]
   \<and> activeMsgCount (objects (snd (session_onMessage sv this (Message sid (OTHER kind)) st)) this)
       = activeMsgCount (objects st this)
   \<and> console (snd (session_onMessage sv this (Message sid (OTHER kind)) st)) = console st
   \<and> disk (snd (session_onMessage sv this (Message sid (OTHER kind)) st)) = disk st
   \<and> processes (snd (session_onMessage sv this (Message sid (OTHER kind)) st)) = processes st
   \<and> last (sent (runTask that fn st2)) \<noteq> (sid2, COMPLETE, Args [Num 2])"
  by (cases "fn st2"; cases "fst (fn st2)")
     (simp_all add: session_onMessage_def agent_defs Let_def)

text \<open>
  Claim C2, as the code has it. \<^verbatim>\<open>KILL\<close> returns normally, whether the Session has a process
  or not; with a process it calls \<^verbatim>\<open>kill\<close> on it, without one it changes no process. In both
  cases it sends nothing, so no \<^verbatim>\<open>COMPLETE\<close> of its own, and it leaves the counter one higher
  than it found it: the branch never calls \<^verbatim>\<open>onTaskComplete\<close>.
\<close>

theorem kill_sends_no_completion:
  "fst (session_onMessage sv this (Message sid KILL) st) = Inr ()
   \<and> sent (snd (session_onMessage sv this (Message sid KILL) st)) = sent st
   \<and> activeMsgCount (objects (snd (session_onMessage sv this (Message sid KILL) st)) this)
       = activeMsgCount (objects st this) + 1
   \<and> processes (snd (session_onMessage sv this (Message sid KILL) st))
       = (case subprocess (objects st this) of
            None \<Rightarrow> processes st
          | Some pid \<Rightarrow> (processes st)[pid := (processes st ! pid)\<lparr>kill_requested := True\<rparr>])"
  by (cases "subprocess (objects st this)")
     (simp_all add: session_onMessage_def agent_defs Let_def)




text \<open>
  Claim C8, as the code has it. When the path passes the containment check, \<^verbatim>\<open>ADD_FILE\<close>
  is completed with the code 0 and no result whatever the creation of the directories and
  the write do: their error, if any, is not printed by \<^verbatim>\<open>runTask\<close> and ends among the
  rejections that nothing handles, because the closure does not await \<^verbatim>\<open>this.writeFile\<close>.
\<close>

theorem add_file_completes_with_0_whatever_the_write_does:
  assumes "ensureValidPath sv p = Inr ()"
  shows "sent (snd (session_onMessage sv this (Message sid (ADD_FILE p c)) st))
           = sent st @ [(sessionID (objects st this), COMPLETE, Args [Num 0, Undefined])]
       \<and> console (snd (session_onMessage sv this (Message sid (ADD_FILE p c)) st)) = console st
       \<and> rejections (snd (session_onMessage sv this (Message sid (ADD_FILE p c)) st))
           = rejections st @
               (case fst (writeFile sv p c (disk st)) of Inl err \<Rightarrow> [err] | Inr _ \<Rightarrow> [])"
  using assms
  by (auto simp add: session_onMessage_def agent_defs addFile_def Let_def
      split: sum.splits prod.splits)

theorem add_file_completes_with_0_whatever_the_write_does_witness:
  "ensureValidPath toy_services ''sub/file.txt'' = Inr ()
   \<and> writeFile toy_services ''sub/file.txt'' ''x'' file_in_the_way
       = (Inl (SysError ''ENOTDIR''), file_in_the_way)
   \<and> sent (snd (session_onMessage toy_services 0 (Message ''s'' (ADD_FILE ''sub/file.txt'' ''x''))
                  (initial file_in_the_way)))
       = [([], COMPLETE, Args [Num 0, Undefined])]
   \<and> rejections (snd (session_onMessage toy_services 0
                        (Message ''s'' (ADD_FILE ''sub/file.txt'' ''x'')) (initial file_in_the_way)))
       = [SysError ''ENOTDIR'']"
proof -
  have h: "ensureValidPath toy_services ''sub/file.txt'' = Inr ()"
    by code_simp
  have w: "writeFile toy_services ''sub/file.txt'' ''x'' file_in_the_way
             = (Inl (SysError ''ENOTDIR''), file_in_the_way)"
    by code_simp
  show ?thesis
    using h w add_file_completes_with_0_whatever_the_write_does
                [OF h, of 0 "''s''" "''x''" "initial file_in_the_way"]
    by (simp add: initial_def)
qed

text \<open>
  Claim C6, as the code has it. Let the working directory be absolute, \<open>root\<close> the segments
  of the resolved workspace directory and \<open>target\<close> those of the resolved path. Then
  \<^verbatim>\<open>ensureValidPath\<close> throws exactly when \<open>target\<close> does not lie under \<open>root\<close>, or lies under
  it and its first segment below \<open>root\<close> starts with two dots: the code tests the first two
  characters of the relative path, not its first segment. For \<^verbatim>\<open>ADD_FILE\<close> and
  \<^verbatim>\<open>REMOVE_FILE\<close> a rejected path leaves the file system as it was, and an accepted one
  leaves what \<^verbatim>\<open>writeFile\<close>, respectively \<^verbatim>\<open>unlink\<close>, leaves.
\<close>

theorem ensureValidPath_throws_iff_outside_or_dotted:
  assumes "isAbsolute (cwd sv)"
      and "root = segments (path_resolve (cwd sv) (workspace_dir sv))"
      and "target = segments (path_resolve (cwd sv) p)"
  shows "(ensureValidPath sv p \<noteq> Inr () \<longleftrightarrow>
           ((\<forall>rest. target \<noteq> root @ rest)
            \<or> (\<exists>x rest. target = root @ x # rest \<and> startsWith x ''..'')))
       \<and> disk (snd (session_onMessage sv this (Message sid (ADD_FILE p c)) st))
           = (case ensureValidPath sv p of
                Inl _ \<Rightarrow> disk st
              | Inr _ \<Rightarrow> snd (writeFile sv p c (disk st)))
       \<and> disk (snd (session_onMessage sv this (Message sid (REMOVE_FILE p)) st))
           = (case ensureValidPath sv p of
                Inl _ \<Rightarrow> disk st
              | Inr _ \<Rightarrow> snd (fsp_unlink sv p (disk st)))"
proof -
  let ?R = "path_resolve (cwd sv) (workspace_dir sv)"
  let ?T = "path_resolve (cwd sv) p"
  obtain f t where dc: "drop_common root target = (f, t)"
    by (cases "drop_common root target")
  have rel: "path_relative (cwd sv) ?R ?T = join_sep [slash] (map (\<lambda>_. ''..'') f @ t)"
  proof (cases "?R = ?T")
    case True
    then have "f = [] \<and> t = []"
      using dc assms(2,3) by (simp add: drop_common_same)
    then show ?thesis
      using True by (simp add: path_relative_def)
  next
    case False
    then show ?thesis
      using dc assms by (simp add: path_relative_def path_resolve_idem)
  qed
  have tclean: "\<forall>x \<in> set target. x \<noteq> []"
    using assms(1,3) resolved_clean [of "cwd sv" p]
    by (auto simp add: segments_path_resolve clean_def)
  have thrown: "ensureValidPath sv p \<noteq> Inr () \<longleftrightarrow>
                  startsWith (join_sep [slash] (map (\<lambda>_. ''..'') f @ t)) ''..''"
    by (simp add: ensureValidPath_def rel Let_def)
  have iff: "ensureValidPath sv p \<noteq> Inr () \<longleftrightarrow>
           ((\<forall>rest. target \<noteq> root @ rest)
            \<or> (\<exists>x rest. target = root @ x # rest \<and> startsWith x ''..''))"
  proof (cases "f = []")
    case True
    then have tgt: "target = root @ t"
      using drop_common_prefix [OF dc] by auto
    then have pre: "\<not> (\<forall>rest. target \<noteq> root @ rest)"
      by blast
    have "\<forall>x \<in> set t. x \<noteq> []"
      using tclean tgt by auto
    then have "startsWith (join_sep [slash] t) ''..'' \<longleftrightarrow> (t \<noteq> [] \<and> startsWith (hd t) ''..'')"
      by (rule startsWith_join)
    moreover have "(t \<noteq> [] \<and> startsWith (hd t) ''..'')
              \<longleftrightarrow> (\<exists>x rest. target = root @ x # rest \<and> startsWith x ''..'')"
      using tgt by (cases t) auto
    ultimately have "ensureValidPath sv p \<noteq> Inr () \<longleftrightarrow>
                       (\<exists>x rest. target = root @ x # rest \<and> startsWith x ''..'')"
      using thrown True by simp
    then show ?thesis
      using pre by blast
  next
    case False
    then have "\<forall>rest. target \<noteq> root @ rest"
      using drop_common_prefix [OF dc] by auto
    then show ?thesis
      using thrown startsWith_climb [OF False, of t] by simp
  qed
  have order: "disk (snd (session_onMessage sv this (Message sid (ADD_FILE p c)) st))
       = (case ensureValidPath sv p of
            Inl _ \<Rightarrow> disk st
          | Inr _ \<Rightarrow> snd (writeFile sv p c (disk st)))
   \<and> disk (snd (session_onMessage sv this (Message sid (REMOVE_FILE p)) st))
       = (case ensureValidPath sv p of
            Inl _ \<Rightarrow> disk st
          | Inr _ \<Rightarrow> snd (fsp_unlink sv p (disk st)))"
    by (auto simp add: session_onMessage_def agent_defs addFile_def removeFile_def Let_def
        split: sum.splits prod.splits)
  show ?thesis
    by (rule conjI [OF iff order])
qed

text \<open>
  With \<^verbatim>\<open>/w\<close> as workspace and working directory, the path \<^verbatim>\<open>..cache/file.txt\<close> resolves to
  \<^verbatim>\<open>/w/..cache/file.txt\<close>, under the workspace, and is rejected; \<^verbatim>\<open>../outside.txt\<close> is
  rejected and \<^verbatim>\<open>sub/file.txt\<close> is accepted.
\<close>

theorem ensureValidPath_throws_iff_outside_or_dotted_witness:
  "isAbsolute (cwd toy_services)
   \<and> segments (path_resolve (cwd toy_services) (workspace_dir toy_services)) = [''w'']
   \<and> segments (path_resolve (cwd toy_services) ''..cache/file.txt'')
       = [''w''] @ ''..cache'' # [''file.txt'']
   \<and> startsWith ''..cache'' ''..''
   \<and> ensureValidPath toy_services ''..cache/file.txt'' \<noteq> Inr ()
   \<and> ensureValidPath toy_services ''..cache/file.txt''
       = Inl (Error ''Cannot edit files outside workspace: ..cache/file.txt'')
   \<and> ensureValidPath toy_services ''../outside.txt''
       = Inl (Error ''Cannot edit files outside workspace: ../outside.txt'')
   \<and> ensureValidPath toy_services ''sub/file.txt'' = Inr ()"
proof -
  have h1: "isAbsolute (cwd toy_services)"
    by code_simp
  have h2: "[''w''] = segments (path_resolve (cwd toy_services) (workspace_dir toy_services))"
    by code_simp
  have h3: "[''w''] @ ''..cache'' # [''file.txt'']
              = segments (path_resolve (cwd toy_services) ''..cache/file.txt'')"
    by code_simp
  have dots: "startsWith ''..cache'' ''..''"
    by (simp add: startsWith_def)
  have vals: "ensureValidPath toy_services ''..cache/file.txt''
       = Inl (Error ''Cannot edit files outside workspace: ..cache/file.txt'')
   \<and> ensureValidPath toy_services ''../outside.txt''
       = Inl (Error ''Cannot edit files outside workspace: ../outside.txt'')
   \<and> ensureValidPath toy_services ''sub/file.txt'' = Inr ()"
    by code_simp
  have inner: "\<exists>x rest. [''w''] @ ''..cache'' # [''file.txt''] = [''w''] @ x # rest
                 \<and> startsWith x ''..''"
    using dots by (intro exI [of _ "''..cache''"] exI [of _ "[''file.txt'']"]) simp
  have "ensureValidPath toy_services ''..cache/file.txt'' \<noteq> Inr () \<longleftrightarrow>
          ((\<forall>rest. [''w''] @ ''..cache'' # [''file.txt''] \<noteq> [''w''] @ rest)
           \<or> (\<exists>x rest. [''w''] @ ''..cache'' # [''file.txt''] = [''w''] @ x # rest
                 \<and> startsWith x ''..''))"
    using ensureValidPath_throws_iff_outside_or_dotted [OF h1 h2 h3] by (rule conjunct1)
  then have thrown: "ensureValidPath toy_services ''..cache/file.txt'' \<noteq> Inr ()"
    using inner by blast
  show ?thesis
    using h1 h2 [symmetric] h3 [symmetric] dots vals thrown by simp
qed

section \<open>Properties of the Client\<close>

lemma sessions_runTask:
  assumes "sessions (snd (fn st)) = sessions st"
  shows "sessions (runTask this fn st) = sessions st"
  using assms by (cases "fn st"; cases "fst (fn st)") (simp_all add: agent_defs Let_def)

lemma sessions_closures:
  "sessions (snd (fetchArtifact sv name dataInfo type config st)) = sessions st"
  "sessions (snd (saveArtifact sv filepath name backend config st)) = sessions st"
  "sessions (snd (addFile sv filepath content st)) = sessions st"
  "sessions (snd (setEnv name val st)) = sessions st"
  "sessions (snd (removeFile sv filepath st)) = sessions st"
  by (simp_all add: fetchArtifact_def saveArtifact_def addFile_def setEnv_def removeFile_def
      on_disk_def Let_def split: prod.splits sum.splits)

text \<open>The Session never touches the table of the Client.\<close>

lemma session_onMessage_sessions:
  "sessions (snd (session_onMessage sv this msg st)) = sessions st"
proof (cases "msg_body msg")
  case (RUN command)
  then show ?thesis
    by (simp add: session_onMessage_def agent_defs Let_def split: list.splits option.splits)
next
  case KILL
  then show ?thesis
    by (simp add: session_onMessage_def agent_defs Let_def split: option.splits)
next
  case (ADD_ARTIFACT name dataInfo type config)
  then show ?thesis
    by (simp add: session_onMessage_def sessions_runTask sessions_closures count_up_def
        on_disk_def Let_def split: prod.splits sum.splits)
next
  case (SAVE_ARTIFACT filepath name backend config)
  then show ?thesis
    by (simp add: session_onMessage_def sessions_runTask sessions_closures count_up_def
        Let_def split: sum.splits)
next
  case (ADD_FILE filepath content)
  then show ?thesis
    by (simp add: session_onMessage_def sessions_runTask sessions_closures count_up_def Let_def)
next
  case (SET_ENV name val)
  then show ?thesis
    by (simp add: session_onMessage_def sessions_runTask sessions_closures count_up_def Let_def)
next
  case (REMOVE_FILE filepath)
  then show ?thesis
    by (simp add: session_onMessage_def sessions_runTask sessions_closures count_up_def Let_def)
next
  case (OTHER kind)
  then show ?thesis
    by (simp add: session_onMessage_def agent_defs Let_def)
qed

text \<open>When the Session's \<^verbatim>\<open>onMessage\<close> rejects, the counter has gone up and nothing was sent.\<close>

lemma session_onMessage_rejects:
  assumes "session_onMessage sv this msg st = (Inl err, st1)"
  shows "activeMsgCount (objects st1 this) = activeMsgCount (objects st this) + 1
       \<and> sent st1 = sent st"
  using assms
  by (cases "msg_body msg")
     (auto simp add: session_onMessage_def count_up_def on_disk_def Let_def
        split: list.splits option.splits prod.splits sum.splits)

lemma next_object_runTask:
  assumes "next_object (snd (fn st)) = next_object st"
  shows "next_object (runTask this fn st) = next_object st"
  using assms by (cases "fn st"; cases "fst (fn st)") (simp_all add: agent_defs Let_def)

lemma next_object_closures:
  "next_object (snd (fetchArtifact sv name dataInfo type config st)) = next_object st"
  "next_object (snd (saveArtifact sv filepath name backend config st)) = next_object st"
  "next_object (snd (addFile sv filepath content st)) = next_object st"
  "next_object (snd (setEnv name val st)) = next_object st"
  "next_object (snd (removeFile sv filepath st)) = next_object st"
  by (simp_all add: fetchArtifact_def saveArtifact_def addFile_def setEnv_def removeFile_def
      on_disk_def Let_def split: prod.splits sum.splits)

text \<open>The Session never creates a Session.\<close>

lemma session_onMessage_next_object:
  "next_object (snd (session_onMessage sv this msg st)) = next_object st"
proof (cases "msg_body msg")
  case (RUN command)
  then show ?thesis
    by (simp add: session_onMessage_def agent_defs Let_def split: list.splits option.splits)
next
  case KILL
  then show ?thesis
    by (simp add: session_onMessage_def agent_defs Let_def split: option.splits)
next
  case (ADD_ARTIFACT name dataInfo type config)
  then show ?thesis
    by (simp add: session_onMessage_def next_object_runTask next_object_closures count_up_def
        on_disk_def Let_def split: prod.splits sum.splits)
next
  case (SAVE_ARTIFACT filepath name backend config)
  then show ?thesis
    by (simp add: session_onMessage_def next_object_runTask next_object_closures count_up_def
        Let_def split: sum.splits)
next
  case (ADD_FILE filepath content)
  then show ?thesis
    by (simp add: session_onMessage_def next_object_runTask next_object_closures count_up_def
        Let_def)
next
  case (SET_ENV name val)
  then show ?thesis
    by (simp add: session_onMessage_def next_object_runTask next_object_closures count_up_def
        Let_def)
next
  case (REMOVE_FILE filepath)
  then show ?thesis
    by (simp add: session_onMessage_def next_object_runTask next_object_closures count_up_def
        Let_def)
next
  case (OTHER kind)
  then show ?thesis
    by (simp add: session_onMessage_def agent_defs Let_def)
qed

text \<open>The exit of a process leaves the table of the Client as it is.\<close>

lemma process_exit_sessions: "sessions (process_exit pid code s) = sessions s"
  by (simp add: process_exit_def agent_defs Let_def)

lemma process_exit_counter:
  "pid < length (processes s) \<and> \<not> exited (processes s ! pid) \<longrightarrow>
     activeMsgCount (objects (process_exit pid code s) (listener (processes s ! pid)))
       = activeMsgCount (objects s (listener (processes s ! pid))) - 1"
  by (simp add: process_exit_def agent_defs Let_def)

text \<open>
  Claim C5, as stated, fails in two ways. After \<^verbatim>\<open>RUN\<close> and the exit of the process the
  counter of the session \<^verbatim>\<open>s\<close> is back at zero (its \<^verbatim>\<open>COMPLETE\<close> was sent), and the Session is
  still in the table of the Client: nothing looks at the table when a process exits. A
  \<^verbatim>\<open>KILL\<close> that arrives later is handled by that same Session, not by a new one: no Session
  object is created, and \<^verbatim>\<open>kill\<close> is called on the process that has exited. And for the
  sessionID \<^verbatim>\<open>constructor\<close>, which every object inherits as a property, the first message does
  not create a Session: the handler throws and leaves the agent as it was.
\<close>

theorem session_lingers_after_exit_counterexample:
  "activeMsgCount (objects after_run_exit 0) = 0
   \<and> sessions after_run_exit ''s'' = Some 0
   \<and> sent after_run_exit = [(''s'', COMPLETE, Args [Num 0])]
   \<and> next_object after_run_exit_kill = 1
   \<and> sessions after_run_exit_kill ''s'' = Some 0
   \<and> kill_requested (processes after_run_exit_kill ! 0)
   \<and> inherited_property ''constructor''
   \<and> client_onMessage toy_services (Message ''constructor'' (SET_ENV ''A'' ''1''))
         (initial toy_workspace)
       = (Inl (Error ''this.sessions[sessionID].onMessage is not a function''),
          initial toy_workspace)
   \<and> next_object (initial toy_workspace) = 0
   \<and> sent (initial toy_workspace) = []"
proof -
  have lingers: "activeMsgCount (objects after_run_exit 0) = 0
   \<and> sessions after_run_exit ''s'' = Some 0
   \<and> sent after_run_exit = [(''s'', COMPLETE, Args [Num 0])]
   \<and> next_object after_run_exit_kill = 1
   \<and> sessions after_run_exit_kill ''s'' = Some 0
   \<and> kill_requested (processes after_run_exit_kill ! 0)"
    by (simp add: after_run_exit_kill_def after_run_exit_def after_run_eq process_exit_def
        client_onMessage_def s_not_inherited session_onMessage_def agent_defs initial_def Let_def)
  have inh: "inherited_property ''constructor''"
    by (simp add: inherited_property_def)
  have thrown: "client_onMessage toy_services (Message ''constructor'' (SET_ENV ''A'' ''1''))
         (initial toy_workspace)
       = (Inl (Error ''this.sessions[sessionID].onMessage is not a function''),
          initial toy_workspace)"
    by (simp add: client_onMessage_def inh)
  have start: "next_object (initial toy_workspace) = 0 \<and> sent (initial toy_workspace) = []"
    by (simp add: initial_def)
  show ?thesis
    using lingers inh thrown start by simp
qed

text \<open>
  Claim C5, amended. The sessionID is not the name of a property that every object
  inherits. When \<^verbatim>\<open>InteractiveClient.onMessage\<close> has run for a message of the session \<open>sid\<close>,
  either to its end, or up to a rejection of the Session's \<^verbatim>\<open>onMessage\<close> when the Session
  was new or its counter was not negative before, then the table has no entry for \<open>sid\<close>
  exactly when the counter of the Session that handled the message is zero, and otherwise
  its entry is that Session. When the table had no entry for \<open>sid\<close> (for instance because
  the entry was removed at the end of an earlier message), the message is handled by a new
  Session whose counter starts at zero and that has no process. When the table had an entry,
  no Session is created: the objects, the processes and the messages sent are those that
  the \<^verbatim>\<open>onMessage\<close> of the Session in the table leaves. The exit of a process, in any state
  of the agent, leaves the table as it is, and takes one from the counter of the Session that
  listens to the process when the process had not exited before.
\<close>

theorem client_keeps_session_while_busy:
  assumes "\<not> inherited_property sid"
      and "client_onMessage sv (Message sid b) st = (r, st')"
      and "this = (case sessions st sid of None \<Rightarrow> next_object st | Some a \<Rightarrow> a)"
      and "r = Inr () \<or> sessions st sid = None \<or> 0 \<le> activeMsgCount (objects st this)"
  shows "(sessions st' sid = None \<longleftrightarrow> activeMsgCount (objects st' this) = 0)
       \<and> (sessions st' sid = None \<or> sessions st' sid = Some this)
       \<and> (sessions st sid = None \<longrightarrow>
            client_onMessage sv (Message sid b) (new_session sid st) = (r, st')
            \<and> sessions (new_session sid st) sid = Some this
            \<and> objects (new_session sid st) this
                = \<lparr>sessionID = sid, activeMsgCount = 0, subprocess = None\<rparr>)
       \<and> (sessions st sid \<noteq> None \<longrightarrow>
            next_object st' = next_object st
            \<and> objects st' = objects (snd (session_onMessage sv this (Message sid b) st))
            \<and> processes st' = processes (snd (session_onMessage sv this (Message sid b) st))
            \<and> sent st' = sent (snd (session_onMessage sv this (Message sid b) st)))
       \<and> sessions (process_exit pid code s) = sessions s
       \<and> (pid < length (processes s) \<and> \<not> exited (processes s ! pid) \<longrightarrow>
            activeMsgCount (objects (process_exit pid code s) (listener (processes s ! pid)))
              = activeMsgCount (objects s (listener (processes s ! pid))) - 1)"
proof -
  define st0 where "st0 = (case sessions st sid of None \<Rightarrow> new_session sid st | Some _ \<Rightarrow> st)"
  have look: "sessions st0 sid = Some this"
    using assms(3) by (simp add: st0_def new_session_def split: option.splits)
  have count0: "r = Inr () \<or> 0 \<le> activeMsgCount (objects st0 this)"
    using assms(3,4) by (auto simp add: st0_def new_session_def split: option.splits)
  obtain q st1 where run: "session_onMessage sv this (Message sid b) st0 = (q, st1)"
    by (cases "session_onMessage sv this (Message sid b) st0")
  have keep: "sessions st1 sid = Some this"
    using session_onMessage_sessions [of sv this "Message sid b" st0] run look by simp
  have same_next: "next_object st1 = next_object st0"
    using session_onMessage_next_object [of sv this "Message sid b" st0] run by simp
  have main: "(sessions st' sid = None \<longleftrightarrow> activeMsgCount (objects st' this) = 0)
       \<and> (sessions st' sid = None \<or> sessions st' sid = Some this)
       \<and> next_object st' = next_object st1 \<and> objects st' = objects st1
       \<and> processes st' = processes st1 \<and> sent st' = sent st1"
  proof (cases q)
    case (Inl err)
    then have "r = Inl err \<and> st' = st1"
      using assms(1,2) look run by (simp add: client_onMessage_def st0_def [symmetric])
    moreover have "activeMsgCount (objects st1 this) = activeMsgCount (objects st0 this) + 1"
      using session_onMessage_rejects run Inl by blast
    ultimately show ?thesis
      using keep count0 by auto
  next
    case (Inr u)
    then have "st' = (if activeMsgCount (objects st1 this) = 0
                      then st1\<lparr>sessions := (sessions st1)(sid := None)\<rparr> else st1)"
      using assms(1,2) look run keep
      by (auto simp add: client_onMessage_def st0_def [symmetric])
    then show ?thesis
      using keep by simp
  qed
  have fresh: "sessions st sid = None \<longrightarrow>
            client_onMessage sv (Message sid b) (new_session sid st) = (r, st')
            \<and> sessions (new_session sid st) sid = Some this
            \<and> objects (new_session sid st) this
                = \<lparr>sessionID = sid, activeMsgCount = 0, subprocess = None\<rparr>"
    using assms(1,2,3) by (auto simp add: client_onMessage_def new_session_def)
  have mapped: "sessions st sid \<noteq> None \<longrightarrow>
            next_object st' = next_object st
            \<and> objects st' = objects (snd (session_onMessage sv this (Message sid b) st))
            \<and> processes st' = processes (snd (session_onMessage sv this (Message sid b) st))
            \<and> sent st' = sent (snd (session_onMessage sv this (Message sid b) st))"
  proof
    assume "sessions st sid \<noteq> None"
    then have "st0 = st"
      by (auto simp add: st0_def)
    then show "next_object st' = next_object st
            \<and> objects st' = objects (snd (session_onMessage sv this (Message sid b) st))
            \<and> processes st' = processes (snd (session_onMessage sv this (Message sid b) st))
            \<and> sent st' = sent (snd (session_onMessage sv this (Message sid b) st))"
      using main same_next run by simp
  qed
  have exit_keeps: "sessions (process_exit pid code s) = sessions s"
    by (rule process_exit_sessions)
  have exit_counts: "pid < length (processes s) \<and> \<not> exited (processes s ! pid) \<longrightarrow>
            activeMsgCount (objects (process_exit pid code s) (listener (processes s ! pid)))
              = activeMsgCount (objects s (listener (processes s ! pid))) - 1"
    by (rule process_exit_counter)
  have table: "(sessions st' sid = None \<longleftrightarrow> activeMsgCount (objects st' this) = 0)
       \<and> (sessions st' sid = None \<or> sessions st' sid = Some this)"
    using main by blast
  show ?thesis
    by (rule conjI [OF conjunct1 [OF table] conjI [OF conjunct2 [OF table]
          conjI [OF fresh conjI [OF mapped conjI [OF exit_keeps exit_counts]]]]])
qed

theorem client_keeps_session_while_busy_witness:
  "\<not> inherited_property ''s''
   \<and> sessions (initial toy_workspace) ''s'' = None
   \<and> fst (client_onMessage toy_services (Message ''s'' (SET_ENV ''A'' ''1'')) (initial toy_workspace))
       = Inr ()
   \<and> sessions (snd (client_onMessage toy_services (Message ''s'' (SET_ENV ''A'' ''1''))
                      (initial toy_workspace))) ''s'' = None
   \<and> activeMsgCount (objects (snd (client_onMessage toy_services (Message ''s'' (SET_ENV ''A'' ''1''))
                      (initial toy_workspace))) 0) = 0
   \<and> sessions after_run ''s'' = Some 0
   \<and> activeMsgCount (objects after_run 0) = 1
   \<and> 0 < length (processes after_run) \<and> \<not> exited (processes after_run ! 0)
   \<and> sessions after_run_exit ''s'' = Some 0
   \<and> activeMsgCount (objects after_run_exit 0) = 0
   \<and> next_object after_run_exit = 1
   \<and> next_object after_run_exit_kill = 1"
proof -
  have h3: "(0::nat) = (case sessions (initial toy_workspace) ''s'' of
                          None \<Rightarrow> next_object (initial toy_workspace) | Some a \<Rightarrow> a)"
    by (simp add: initial_def)
  have h4: "sessions (initial toy_workspace) ''s'' = None"
    by (simp add: initial_def)
  have ok: "fst (client_onMessage toy_services (Message ''s'' (SET_ENV ''A'' ''1''))
                  (initial toy_workspace)) = Inr ()"
    by (simp add: client_onMessage_def s_not_inherited new_session_def session_onMessage_def
        setEnv_def agent_defs initial_def Let_def)
  have zero: "activeMsgCount (objects (snd (client_onMessage toy_services
                  (Message ''s'' (SET_ENV ''A'' ''1'')) (initial toy_workspace))) 0) = 0"
    by (simp add: client_onMessage_def s_not_inherited new_session_def session_onMessage_def
        setEnv_def agent_defs initial_def Let_def)
  have run: "activeMsgCount (objects after_run 0) = 1"
    by (simp add: after_run_eq)
  have live: "0 < length (processes after_run) \<and> \<not> exited (processes after_run ! 0)"
    by (simp add: after_run_eq)
  have owner: "listener (processes after_run ! 0) = 0"
    by (simp add: after_run_eq)
  have next1: "next_object after_run_exit = 1"
    by (simp add: after_run_exit_def after_run_eq process_exit_def agent_defs Let_def)
  have setenv: "sessions (snd (client_onMessage toy_services (Message ''s'' (SET_ENV ''A'' ''1''))
                      (initial toy_workspace))) ''s'' = None"
    using client_keeps_session_while_busy [OF s_not_inherited _ h3, of toy_services
        "SET_ENV ''A'' ''1''"
        "fst (client_onMessage toy_services (Message ''s'' (SET_ENV ''A'' ''1''))
               (initial toy_workspace))"
        "snd (client_onMessage toy_services (Message ''s'' (SET_ENV ''A'' ''1''))
               (initial toy_workspace))" 0 "Num 0" after_run] h4 zero
    by simp
  have p1: "client_onMessage toy_services (Message ''s'' (RUN ''sleep 100'')) (initial toy_workspace)
              = (fst (client_onMessage toy_services (Message ''s'' (RUN ''sleep 100''))
                       (initial toy_workspace)), after_run)"
    by (simp add: after_run_def)
  have q1: "fst (client_onMessage toy_services (Message ''s'' (RUN ''sleep 100''))
                  (initial toy_workspace)) = Inr ()
            \<or> sessions (initial toy_workspace) ''s'' = None
            \<or> 0 \<le> activeMsgCount (objects (initial toy_workspace) 0)"
    using h4 by simp
  note first = client_keeps_session_while_busy [OF s_not_inherited p1 h3 q1,
      of 0 "Num 0" after_run]
  have busy: "sessions after_run ''s'' = Some 0"
    using first run by auto
  have stays: "sessions after_run_exit ''s'' = Some 0"
    using first busy by (simp add: after_run_exit_def)
  have down: "activeMsgCount (objects after_run_exit 0) = 0"
    using first live owner run by (simp add: after_run_exit_def)
  have h3': "(0::nat) = (case sessions after_run_exit ''s'' of
                           None \<Rightarrow> next_object after_run_exit | Some a \<Rightarrow> a)"
    using stays by simp
  have p2: "client_onMessage toy_services (Message ''s'' KILL) after_run_exit
              = (fst (client_onMessage toy_services (Message ''s'' KILL) after_run_exit),
                 after_run_exit_kill)"
    by (simp add: after_run_exit_kill_def)
  have q2: "fst (client_onMessage toy_services (Message ''s'' KILL) after_run_exit) = Inr ()
             \<or> sessions after_run_exit ''s'' = None
             \<or> 0 \<le> activeMsgCount (objects after_run_exit 0)"
    using down by simp
  have reused: "next_object after_run_exit_kill = next_object after_run_exit"
    using client_keeps_session_while_busy [OF s_not_inherited p2 h3' q2,
        of 0 "Num 0" after_run] stays
    by simp
  show ?thesis
    using s_not_inherited h4 ok zero run live setenv busy stays down next1 reused by simp
qed

text \<open>
  Claim C1, as the code has it. \<^verbatim>\<open>RUN\<close>, then \<^verbatim>\<open>KILL\<close>, then the exit of the killed process:
  two messages were accepted, one \<^verbatim>\<open>COMPLETE\<close> was sent (that of \<^verbatim>\<open>RUN\<close>), and the counter
  stays at 1 with the Session in the table, although nothing is in flight. A \<^verbatim>\<open>KILL\<close> for a
  session without process leaves a Session with counter 1 and sends nothing. An
  \<^verbatim>\<open>ADD_ARTIFACT\<close> whose directory cannot be created rejects before \<^verbatim>\<open>runTask\<close> is reached:
  nothing is sent and the counter stays up.
\<close>

theorem kill_leaves_counter_unbalanced:
  "sent after_run_kill_exit = [(''s'', COMPLETE, Args [Null])]
   \<and> activeMsgCount (objects after_run_kill_exit 0) = 1
   \<and> sessions after_run_kill_exit ''s'' = Some 0
   \<and> exited (processes after_run_kill_exit ! 0)
   \<and> client_onMessage toy_services (Message ''t'' KILL) (initial toy_workspace)
       = (Inr (), (initial toy_workspace)
            \<lparr>objects := (objects (initial toy_workspace))
                (0 := \<lparr>sessionID = ''t'', activeMsgCount = 1, subprocess = None\<rparr>),
             next_object := 1,
             sessions := (sessions (initial toy_workspace))(''t'' \<mapsto> 0)\<rparr>)
   \<and> fst (session_onMessage toy_services 0 (Message ''s'' (ADD_ARTIFACT ''a'' ''info'' ''t'' None))
            (initial artifacts_is_a_file)) = Inl (SysError ''ENOTDIR'')
   \<and> sent (snd (session_onMessage toy_services 0
                  (Message ''s'' (ADD_ARTIFACT ''a'' ''info'' ''t'' None))
                  (initial artifacts_is_a_file))) = []
   \<and> activeMsgCount (objects (snd (session_onMessage toy_services 0
                  (Message ''s'' (ADD_ARTIFACT ''a'' ''info'' ''t'' None))
                  (initial artifacts_is_a_file))) 0) = 1"
proof -
  have kill: "sent after_run_kill_exit = [(''s'', COMPLETE, Args [Null])]
   \<and> activeMsgCount (objects after_run_kill_exit 0) = 1
   \<and> sessions after_run_kill_exit ''s'' = Some 0
   \<and> exited (processes after_run_kill_exit ! 0)"
    by (simp add: after_run_kill_exit_def after_run_eq process_exit_def
      client_onMessage_def s_not_inherited session_onMessage_def agent_defs initial_def Let_def)
  have lone: "client_onMessage toy_services (Message ''t'' KILL) (initial toy_workspace)
       = (Inr (), (initial toy_workspace)
            \<lparr>objects := (objects (initial toy_workspace))
                (0 := \<lparr>sessionID = ''t'', activeMsgCount = 1, subprocess = None\<rparr>),
             next_object := 1,
             sessions := (sessions (initial toy_workspace))(''t'' \<mapsto> 0)\<rparr>)"
    by (simp add: client_onMessage_def inherited_property_def new_session_def
        session_onMessage_def agent_defs initial_def Let_def)
  have mk: "mkdirp toy_services [''artifacts'', ''a''] artifacts_is_a_file
         = (Inl (SysError ''ENOTDIR''), artifacts_is_a_file)"
    by code_simp
  have art: "session_onMessage toy_services 0 (Message ''s'' (ADD_ARTIFACT ''a'' ''info'' ''t'' None))
            (initial artifacts_is_a_file)
       = (Inl (SysError ''ENOTDIR''), count_up 0 (initial artifacts_is_a_file))"
    by (simp add: session_onMessage_def on_disk_def count_up_def initial_def mk Let_def)
  show ?thesis
    using kill lone by (simp add: art) (simp add: count_up_def initial_def)
qed

end
